theory Spec2Isabelle
  imports Complex_Main
begin

section \<open>Real-estate rent calculator: the financial core of calculator.js\<close>

text \<open>
  The JavaScript numbers of the source are idealised as exact numbers: the year counts
  (contract duration, grace period, escalation interval, the loop counter and
  the integer bounds of the bisection) as \<open>int\<close>, the money amounts and the
  percentages as \<open>real\<close>. Rounding of IEEE doubles is not modelled, and the
  discount base \<open>1 + capitalizationRate / 100\<close> is non-zero wherever a theorem
  below divides by its powers (the source would produce Infinity or NaN there,
  which \<open>real\<close> does not have).
\<close>

subsection \<open>Data model\<close>

text \<open>
  The object returned by \<open>getInputValues\<close> (lines 23-35). The three year
  counts are whole numbers, as the data model of a lease types them; a
  fractional entry, which \<open>parseFloat\<close> would also accept, is outside this
  model.
\<close>

record inputs =
  contractDuration :: int
  gracePeriod :: int
  rentIncreaseInterval :: int
  rentIncreaseRate :: real
  capitalizationRate :: real
  landArea :: real
  buildingFactor :: real
  constructionCost :: real
  totalDevelopmentCost :: real

text \<open>One row pushed on \<open>cashFlowData\<close> (lines 65-70).\<close>

record cash_flow =
  year :: int
  rent :: real
  discountedCashFlow :: real
  cumulativeCashFlow :: real

text \<open>The object \<open>{ npv, cashFlowData }\<close> returned by \<open>calculateNPV\<close> (line 73).\<close>

record projection =
  npv :: real
  cashFlowData :: "cash_flow list"

subsection \<open>calculateNPV (lines 38-74)\<close>

text \<open>
  The remainder operator \<open>%\<close> on integer-valued numbers: the result has the
  sign of the dividend, and a zero divisor gives NaN, here \<open>None\<close>, which is
  not \<open>=== 0\<close>.
\<close>

definition js_rem :: "int \<Rightarrow> int \<Rightarrow> int option" where
  "js_rem a b = (if b = 0 then None else Some (sgn a * (\<bar>a\<bar> mod \<bar>b\<bar>)))"

text \<open>
  Lines 45-58: from the year and the running rent, the new running rent and
  the rent charged that year.
\<close>

definition rent_step :: "inputs \<Rightarrow> int \<Rightarrow> real \<Rightarrow> real \<times> real" where
  "rent_step inp y currentRent =
     (if y > gracePeriod inp then
        (if y > gracePeriod inp
            \<and> js_rem (y - gracePeriod inp - 1) (rentIncreaseInterval inp) = Some 0
            \<and> y > gracePeriod inp + 1
         then (currentRent * (1 + rentIncreaseRate inp / 100),
               currentRent * (1 + rentIncreaseRate inp / 100))
         else (currentRent, currentRent))
      else (currentRent, 0))"

text \<open>
  The \<open>for\<close> loop of lines 44-71, with its five mutable variables as
  arguments: the counter, \<open>currentRent\<close>, \<open>npv\<close>, \<open>cumulativeCashFlow\<close> and
  \<open>cashFlowData\<close>.
\<close>

function calculateNPV_loop ::
  "inputs \<Rightarrow> int \<Rightarrow> real \<Rightarrow> real \<Rightarrow> real \<Rightarrow> cash_flow list \<Rightarrow> projection" where
  "calculateNPV_loop inp y currentRent n c d =
     (if y \<le> contractDuration inp then
        (case rent_step inp y currentRent of (currentRent', yearlyRent) \<Rightarrow>
           let dcf = yearlyRent / (1 + capitalizationRate inp / 100) ^ nat y
           in calculateNPV_loop inp (y + 1) currentRent' (n + dcf) (c + dcf)
                (d @ [\<lparr>year = y, rent = yearlyRent, discountedCashFlow = dcf,
                        cumulativeCashFlow = c + dcf\<rparr>]))
      else \<lparr>npv = n, cashFlowData = d\<rparr>)"
  by pat_completeness auto
termination
  by (relation "measure (\<lambda>(inp, y, currentRent, n, c, d). nat (contractDuration inp + 1 - y))")
     auto

definition calculateNPV :: "real \<Rightarrow> inputs \<Rightarrow> projection" where
  "calculateNPV annualRent inp =
     calculateNPV_loop inp 1 annualRent
       (- totalDevelopmentCost inp) (- totalDevelopmentCost inp) []"

subsection \<open>findOptimalRent (lines 77-98)\<close>

function findOptimalRent_loop :: "inputs \<Rightarrow> int \<Rightarrow> int \<Rightarrow> int \<Rightarrow> nat \<Rightarrow> int" where
  "findOptimalRent_loop inp low high optimalRent iterations =
     (if high - low > 1000 \<and> iterations < 50 then
        (let mid = (low + high) div 2 in
         if npv (calculateNPV (of_int mid) inp) \<ge> 0
         then findOptimalRent_loop inp mid high mid (iterations + 1)
         else findOptimalRent_loop inp low mid optimalRent (iterations + 1))
      else optimalRent)"
  by pat_completeness auto
termination
  by (relation "measure (\<lambda>(inp, low, high, optimalRent, iterations). 50 - iterations)") auto

definition findOptimalRent :: "inputs \<Rightarrow> int" where
  "findOptimalRent inp = findOptimalRent_loop inp 0 50000000 0 0"

subsection \<open>calculatePaybackPeriod and calculateAnnualReturn (lines 101-114)\<close>

function calculatePaybackPeriod_loop :: "cash_flow list \<Rightarrow> nat \<Rightarrow> nat" where
  "calculatePaybackPeriod_loop d i =
     (if i < length d then
        (if cumulativeCashFlow (d ! i) \<ge> 0 then i + 1
         else calculatePaybackPeriod_loop d (i + 1))
      else length d)"
  by pat_completeness auto
termination
  by (relation "measure (\<lambda>(d, i). length d - i)") auto

definition calculatePaybackPeriod :: "cash_flow list \<Rightarrow> nat" where
  "calculatePaybackPeriod d = calculatePaybackPeriod_loop d 0"

definition calculateAnnualReturn :: "real \<Rightarrow> real \<Rightarrow> real" where
  "calculateAnnualReturn optimalRent tdc =
     (if tdc = 0 then 0 else (optimalRent / tdc) * 100)"

subsection \<open>Names for the parts of the loop body\<close>

text \<open>
  The running rent after the body of year \<open>y\<close>, the rent charged in year
  \<open>y\<close>, its discounted value (line 61) and the row pushed (lines 65-70), each
  as a function of the running rent before the body.
\<close>

definition next_rent :: "inputs \<Rightarrow> int \<Rightarrow> real \<Rightarrow> real" where
  "next_rent inp y cr = fst (rent_step inp y cr)"

definition year_rent :: "inputs \<Rightarrow> int \<Rightarrow> real \<Rightarrow> real" where
  "year_rent inp y cr = snd (rent_step inp y cr)"

definition year_dcf :: "inputs \<Rightarrow> int \<Rightarrow> real \<Rightarrow> real" where
  "year_dcf inp y cr = year_rent inp y cr / (1 + capitalizationRate inp / 100) ^ nat y"

definition year_row :: "inputs \<Rightarrow> int \<Rightarrow> real \<Rightarrow> real \<Rightarrow> cash_flow" where
  "year_row inp y cr c =
     \<lparr>year = y, rent = year_rent inp y cr, discountedCashFlow = year_dcf inp y cr,
      cumulativeCashFlow = c + year_dcf inp y cr\<rparr>"

subsection \<open>Valid parameters and the page's default input\<close>

text \<open>
  The ranges the data model gives for a lease: at least one contract year, a
  non-negative grace period, an escalation interval of at least one year, a
  non-negative escalation rate, a positive discount rate and a positive cost.
  The grace period is not required to be shorter than the contract.
\<close>

definition valid_params :: "inputs \<Rightarrow> bool" where
  "valid_params inp \<longleftrightarrow>
     1 \<le> contractDuration inp \<and> 0 \<le> gracePeriod inp \<and> 1 \<le> rentIncreaseInterval inp
     \<and> 0 \<le> rentIncreaseRate inp \<and> 0 < capitalizationRate inp
     \<and> 0 < totalDevelopmentCost inp"

text \<open>The defaults of \<open>getInputValues\<close>, which are also the values of index.html.\<close>

definition default_inputs :: inputs where
  "default_inputs =
     \<lparr>contractDuration = 20, gracePeriod = 2, rentIncreaseInterval = 5,
      rentIncreaseRate = 10, capitalizationRate = 7, landArea = 10000,
      buildingFactor = 5 / 2, constructionCost = 2000, totalDevelopmentCost = 93480000\<rparr>"

text \<open>
  The default lease shortened to five years: rent is charged in years 3 to 5
  only, so the development cost is recovered only by rents above 40 million.
\<close>

definition short_lease :: inputs where
  "short_lease = default_inputs\<lparr>contractDuration := 5\<rparr>"

subsection \<open>getInputValues (lines 23-35) and calculateOptimalRent (lines 182-225)\<close>

text \<open>
  The page's number fields as \<open>parseFloat\<close> reads them: \<open>None\<close> is NaN (an
  empty or non-numeric field).
\<close>

record form =
  contractDuration_field :: "int option"
  gracePeriod_field :: "int option"
  rentIncreaseInterval_field :: "int option"
  rentIncreaseRate_field :: "real option"
  capitalizationRate_field :: "real option"
  landArea_field :: "real option"
  buildingFactor_field :: "real option"
  constructionCost_field :: "real option"
  totalDevelopmentCost_field :: "real option"

text \<open>
  \<open>parseFloat(...) || d\<close>: NaN and 0 are both falsy, so either one yields the
  default \<open>d\<close>.
\<close>

definition or_default :: "'a::zero option \<Rightarrow> 'a \<Rightarrow> 'a" where
  "or_default v d = (case v of None \<Rightarrow> d | Some x \<Rightarrow> if x = 0 then d else x)"

definition getInputValues :: "form \<Rightarrow> inputs" where
  "getInputValues f =
     \<lparr>contractDuration = or_default (contractDuration_field f) 20,
      gracePeriod = or_default (gracePeriod_field f) 2,
      rentIncreaseInterval = or_default (rentIncreaseInterval_field f) 5,
      rentIncreaseRate = or_default (rentIncreaseRate_field f) 10,
      capitalizationRate = or_default (capitalizationRate_field f) 7,
      landArea = or_default (landArea_field f) 10000,
      buildingFactor = or_default (buildingFactor_field f) (5 / 2),
      constructionCost = or_default (constructionCost_field f) 2000,
      totalDevelopmentCost = or_default (totalDevelopmentCost_field f) 93480000\<rparr>"

text \<open>
  \<open>calculateOptimalRent\<close> returns nothing; what it does is the sequence of
  calls it makes, recorded here in order. An \<open>alert\<close> is followed by
  \<open>return\<close>. The DOM updates are recorded with their arguments only. No
  statement of the \<open>try\<close> block throws in this model, so the \<open>catch\<close> branch
  has no counterpart.
\<close>

datatype alert_message = DevelopmentCostAlert | ContractDurationAlert

datatype effect =
    Alert alert_message
  | Call_findOptimalRent inputs
  | Call_calculateNPV real inputs
  | Call_calculatePaybackPeriod "cash_flow list"
  | Call_calculateAnnualReturn real real
  | Call_updateResults real real nat real
  | Call_updateCashFlowTable "cash_flow list"
  | Call_updateSlider real
  | Call_updateRentValue
  | ConsoleLog real real nat real

definition calculateOptimalRent :: "form \<Rightarrow> effect list" where
  "calculateOptimalRent f =
     (let inp = getInputValues f in
      if totalDevelopmentCost inp \<le> 0 then [Alert DevelopmentCostAlert]
      else if contractDuration inp \<le> 0 then [Alert ContractDurationAlert]
      else
        let optimalRent = real_of_int (findOptimalRent inp);
            result = calculateNPV optimalRent inp;
            paybackPeriod = calculatePaybackPeriod (cashFlowData result);
            annualReturn = calculateAnnualReturn optimalRent (totalDevelopmentCost inp)
        in [Call_findOptimalRent inp,
            Call_calculateNPV optimalRent inp,
            Call_calculatePaybackPeriod (cashFlowData result),
            Call_calculateAnnualReturn optimalRent (totalDevelopmentCost inp),
            Call_updateResults optimalRent (npv result) paybackPeriod annualReturn,
            Call_updateCashFlowTable (cashFlowData result),
            Call_updateSlider optimalRent,
            Call_updateRentValue,
            ConsoleLog optimalRent (npv result) paybackPeriod annualReturn])"

text \<open>The form as index.html loads it.\<close>

definition default_form :: form where
  "default_form =
     \<lparr>contractDuration_field = Some 20, gracePeriod_field = Some 2,
      rentIncreaseInterval_field = Some 5, rentIncreaseRate_field = Some 10,
      capitalizationRate_field = Some 7, landArea_field = Some 10000,
      buildingFactor_field = Some (5 / 2), constructionCost_field = Some 2000,
      totalDevelopmentCost_field = Some 93480000\<rparr>"

section \<open>Properties of the projection loop\<close>

declare calculateNPV_loop.simps [simp del]
declare findOptimalRent_loop.simps [simp del]
declare calculatePaybackPeriod_loop.simps [simp del]

lemma valid_default_inputs: "valid_params default_inputs"
  by (simp add: valid_params_def default_inputs_def)

lemma loop_step:
  "y \<le> contractDuration inp \<Longrightarrow>
   calculateNPV_loop inp y cr n c d =
   calculateNPV_loop inp (y + 1) (next_rent inp y cr) (n + year_dcf inp y cr)
     (c + year_dcf inp y cr) (d @ [year_row inp y cr c])"
  by (subst calculateNPV_loop.simps)
     (simp add: next_rent_def year_rent_def year_dcf_def year_row_def Let_def split: prod.split)

lemma loop_stop:
  "\<not> y \<le> contractDuration inp \<Longrightarrow>
   calculateNPV_loop inp y cr n c d = \<lparr>npv = n, cashFlowData = d\<rparr>"
  by (subst calculateNPV_loop.simps) simp

lemma loop_induct [case_names step]:
  assumes "\<And>y cr n c d.
     (y \<le> contractDuration inp \<Longrightarrow>
        P (y + 1) (next_rent inp y cr) (n + year_dcf inp y cr)
          (c + year_dcf inp y cr) (d @ [year_row inp y cr c])) \<Longrightarrow> P y cr n c d"
  shows "P y cr n c d"
  using assms
proof (induction inp y cr n c d rule: calculateNPV_loop.induct)
  case (1 inp y currentRent n c d)
  show ?case
  proof (rule "1.prems")
    assume le: "y \<le> contractDuration inp"
    have eq: "(next_rent inp y currentRent, year_rent inp y currentRent) = rent_step inp y currentRent"
      by (simp add: next_rent_def year_rent_def)
    have "P (y + 1) (next_rent inp y currentRent)
          (n + year_rent inp y currentRent / (1 + capitalizationRate inp / 100) ^ nat y)
          (c + year_rent inp y currentRent / (1 + capitalizationRate inp / 100) ^ nat y)
          (d @ [\<lparr>year = y, rent = year_rent inp y currentRent,
                  discountedCashFlow = year_rent inp y currentRent / (1 + capitalizationRate inp / 100) ^ nat y,
                  cumulativeCashFlow = c + year_rent inp y currentRent / (1 + capitalizationRate inp / 100) ^ nat y\<rparr>])"
      by (rule "1.IH" [OF le eq refl]) (rule "1.prems")
    then show "P (y + 1) (next_rent inp y currentRent) (n + year_dcf inp y currentRent)
          (c + year_dcf inp y currentRent) (d @ [year_row inp y currentRent c])"
      by (simp only: year_dcf_def year_row_def)
  qed
qed


lemma loop_shape:
  "\<exists>n' s. \<forall>d. calculateNPV_loop inp y cr n c d = \<lparr>npv = n', cashFlowData = d @ s\<rparr>"
proof (rule loop_induct [where inp = inp and d = "[]" and
    P = "\<lambda>y cr n c d0. \<exists>n' s. \<forall>d. calculateNPV_loop inp y cr n c d =
           \<lparr>npv = n', cashFlowData = d @ s\<rparr>"])
  fix y cr n c and d0 :: "cash_flow list"
  assume step: "y \<le> contractDuration inp \<Longrightarrow>
    \<exists>n' s. \<forall>d. calculateNPV_loop inp (y + 1) (next_rent inp y cr) (n + year_dcf inp y cr)
          (c + year_dcf inp y cr) d = \<lparr>npv = n', cashFlowData = d @ s\<rparr>"
  show "\<exists>n' s. \<forall>d. calculateNPV_loop inp y cr n c d = \<lparr>npv = n', cashFlowData = d @ s\<rparr>"
  proof (cases "y \<le> contractDuration inp")
    case True
    from step [OF True] obtain n' s where
      "\<forall>d. calculateNPV_loop inp (y + 1) (next_rent inp y cr) (n + year_dcf inp y cr)
          (c + year_dcf inp y cr) d = \<lparr>npv = n', cashFlowData = d @ s\<rparr>"
      by blast
    then have "\<forall>d. calculateNPV_loop inp y cr n c d =
        \<lparr>npv = n', cashFlowData = d @ (year_row inp y cr c # s)\<rparr>"
      using True by (simp add: loop_step)
    then show ?thesis by blast
  next
    case False
    then show ?thesis by (simp add: loop_stop)
  qed
qed

lemma loop_append:
  "calculateNPV_loop inp y cr n c d =
   \<lparr>npv = npv (calculateNPV_loop inp y cr n c []),
    cashFlowData = d @ cashFlowData (calculateNPV_loop inp y cr n c [])\<rparr>"
proof -
  obtain n' s where
    *: "\<forall>d. calculateNPV_loop inp y cr n c d = \<lparr>npv = n', cashFlowData = d @ s\<rparr>"
    using loop_shape by blast
  show ?thesis by (simp add: *)
qed

lemma rows_Cons:
  assumes "y \<le> contractDuration inp"
  shows "cashFlowData (calculateNPV_loop inp y cr n c []) =
     year_row inp y cr c #
     cashFlowData (calculateNPV_loop inp (y + 1) (next_rent inp y cr)
       (n + year_dcf inp y cr) (c + year_dcf inp y cr) [])"
proof -
  have "calculateNPV_loop inp y cr n c [] =
     calculateNPV_loop inp (y + 1) (next_rent inp y cr)
       (n + year_dcf inp y cr) (c + year_dcf inp y cr) [year_row inp y cr c]"
    using assms by (simp add: loop_step)
  then show ?thesis
    by (subst (asm) (2) loop_append) simp
qed

lemma npv_step:
  assumes "y \<le> contractDuration inp"
  shows "npv (calculateNPV_loop inp y cr n c []) =
     npv (calculateNPV_loop inp (y + 1) (next_rent inp y cr)
       (n + year_dcf inp y cr) (c + year_dcf inp y cr) [])"
proof -
  have "calculateNPV_loop inp y cr n c [] =
     calculateNPV_loop inp (y + 1) (next_rent inp y cr)
       (n + year_dcf inp y cr) (c + year_dcf inp y cr) [year_row inp y cr c]"
    using assms by (simp add: loop_step)
  then show ?thesis
    by (subst (asm) (2) loop_append) simp
qed

lemma rows_induct [case_names step]:
  assumes "\<And>y cr n c.
     (y \<le> contractDuration inp \<Longrightarrow>
        P (y + 1) (next_rent inp y cr) (n + year_dcf inp y cr) (c + year_dcf inp y cr))
     \<Longrightarrow> P y cr n c"
  shows "P y cr n c"
  by (rule loop_induct [where inp = inp and d = "[]" and P = "\<lambda>y cr n c d. P y cr n c"])
     (rule assms)

lemma rows_length:
  "length (cashFlowData (calculateNPV_loop inp y cr n c [])) = nat (contractDuration inp + 1 - y)"
proof (induction y cr n c rule: rows_induct [where inp = inp])
  case (step y cr n c)
  show ?case
  proof (cases "y \<le> contractDuration inp")
    case True
    then show ?thesis using step [OF True] by (simp add: rows_Cons)
  next
    case False
    then show ?thesis by (simp add: loop_stop)
  qed
qed

lemma rows_years:
  "map year (cashFlowData (calculateNPV_loop inp y cr n c [])) = [y..contractDuration inp]"
proof (induction y cr n c rule: rows_induct [where inp = inp])
  case (step y cr n c)
  show ?case
  proof (cases "y \<le> contractDuration inp")
    case True
    then show ?thesis using step [OF True] by (simp add: rows_Cons upto_rec1 year_row_def)
  next
    case False
    then show ?thesis by (simp add: loop_stop)
  qed
qed


lemma next_rent_zero: "next_rent inp y 0 = 0"
  by (simp add: next_rent_def rent_step_def)

lemma year_dcf_zero: "year_dcf inp y 0 = 0"
  by (simp add: year_dcf_def year_rent_def rent_step_def)

lemma year_rent_grace: "y \<le> gracePeriod inp \<Longrightarrow> year_rent inp y cr = 0"
  by (simp add: year_rent_def rent_step_def)

lemma year_dcf_grace: "y \<le> gracePeriod inp \<Longrightarrow> year_dcf inp y cr = 0"
  by (simp add: year_dcf_def year_rent_grace)

lemma npv_zero_rent: "npv (calculateNPV_loop inp y 0 n c []) = n"
proof (induction y "0 :: real" n c rule: rows_induct [where inp = inp])
  case (step y n c)
  show ?case
  proof (cases "y \<le> contractDuration inp")
    case True
    then show ?thesis using step [OF True]
      by (simp add: npv_step next_rent_zero year_dcf_zero)
  next
    case False
    then show ?thesis by (simp add: loop_stop)
  qed
qed

lemma npv_all_grace:
  "contractDuration inp \<le> gracePeriod inp \<Longrightarrow> npv (calculateNPV_loop inp y cr n c []) = n"
proof (induction y cr n c rule: rows_induct [where inp = inp])
  case (step y cr n c)
  show ?case
  proof (cases "y \<le> contractDuration inp")
    case True
    with step.prems have "y \<le> gracePeriod inp" by simp
    then show ?thesis using step.IH [OF True step.prems] True
      by (simp add: npv_step year_dcf_grace)
  next
    case False
    then show ?thesis by (simp add: loop_stop)
  qed
qed

lemma next_rent_mono:
  "0 \<le> 1 + rentIncreaseRate inp / 100 \<Longrightarrow> a \<le> b \<Longrightarrow> next_rent inp y a \<le> next_rent inp y b"
  by (simp add: next_rent_def rent_step_def mult_right_mono)

lemma year_rent_mono:
  "0 \<le> 1 + rentIncreaseRate inp / 100 \<Longrightarrow> a \<le> b \<Longrightarrow> year_rent inp y a \<le> year_rent inp y b"
  by (simp add: year_rent_def rent_step_def mult_right_mono)

lemma year_dcf_mono:
  assumes "0 \<le> 1 + rentIncreaseRate inp / 100" and "0 < 1 + capitalizationRate inp / 100"
    and "a \<le> b"
  shows "year_dcf inp y a \<le> year_dcf inp y b"
proof -
  have "0 \<le> (1 + capitalizationRate inp / 100) ^ nat y"
    using assms(2) by simp
  then show ?thesis
    unfolding year_dcf_def
    by (intro divide_right_mono year_rent_mono assms)
qed

lemma npv_loop_mono:
  assumes "0 \<le> 1 + rentIncreaseRate inp / 100" and "0 < 1 + capitalizationRate inp / 100"
  shows "a \<le> b \<Longrightarrow> n \<le> m \<Longrightarrow>
     npv (calculateNPV_loop inp y a n c []) \<le> npv (calculateNPV_loop inp y b m c' [])"
proof (induction y a n c arbitrary: b m c' rule: rows_induct [where inp = inp])
  case (step y a n c)
  show ?case
  proof (cases "y \<le> contractDuration inp")
    case True
    have "npv (calculateNPV_loop inp (y + 1) (next_rent inp y a) (n + year_dcf inp y a)
            (c + year_dcf inp y a) []) \<le>
          npv (calculateNPV_loop inp (y + 1) (next_rent inp y b) (m + year_dcf inp y b)
            (c' + year_dcf inp y b) [])"
    proof (rule step.IH [OF True])
      show "next_rent inp y a \<le> next_rent inp y b"
        using assms(1) step.prems(1) by (rule next_rent_mono)
      show "n + year_dcf inp y a \<le> m + year_dcf inp y b"
        using year_dcf_mono [OF assms step.prems(1), of y] step.prems(2) by simp
    qed
    then show ?thesis using True by (simp add: npv_step)
  next
    case False
    then show ?thesis using step.prems by (simp add: loop_stop)
  qed
qed

subsection \<open>Rows of the schedule\<close>

lemma rows_cumulative:
  "\<forall>i < length (cashFlowData (calculateNPV_loop inp y cr n c [])).
     cumulativeCashFlow (cashFlowData (calculateNPV_loop inp y cr n c []) ! i) =
     (if i = 0 then c
      else cumulativeCashFlow (cashFlowData (calculateNPV_loop inp y cr n c []) ! (i - 1)))
     + discountedCashFlow (cashFlowData (calculateNPV_loop inp y cr n c []) ! i)"
proof (induction y cr n c rule: rows_induct [where inp = inp])
  case (step y cr n c)
  show ?case
  proof (cases "y \<le> contractDuration inp")
    case True
    define rest where "rest = cashFlowData (calculateNPV_loop inp (y + 1) (next_rent inp y cr)
       (n + year_dcf inp y cr) (c + year_dcf inp y cr) [])"
    have rows: "cashFlowData (calculateNPV_loop inp y cr n c []) = year_row inp y cr c # rest"
      using True by (simp add: rows_Cons rest_def)
    have IH: "\<forall>i < length rest. cumulativeCashFlow (rest ! i) =
        (if i = 0 then c + year_dcf inp y cr else cumulativeCashFlow (rest ! (i - 1)))
        + discountedCashFlow (rest ! i)"
      using step [OF True] by (simp only: rest_def)
    show ?thesis
      unfolding rows
    proof (intro allI impI)
      fix i assume i: "i < length (year_row inp y cr c # rest)"
      show "cumulativeCashFlow ((year_row inp y cr c # rest) ! i) =
          (if i = 0 then c else cumulativeCashFlow ((year_row inp y cr c # rest) ! (i - 1)))
          + discountedCashFlow ((year_row inp y cr c # rest) ! i)"
      proof (cases i)
        case 0
        then show ?thesis by (simp add: year_row_def)
      next
        case (Suc j)
        with i have "j < length rest" by simp
        with IH have "cumulativeCashFlow (rest ! j) =
          (if j = 0 then c + year_dcf inp y cr else cumulativeCashFlow (rest ! (j - 1)))
          + discountedCashFlow (rest ! j)" by blast
        then show ?thesis using Suc by (cases j) (simp_all add: year_row_def)
      qed
    qed
  next
    case False
    then show ?thesis by (simp add: loop_stop)
  qed
qed

lemma npv_last_row:
  "n = c \<Longrightarrow> y \<le> contractDuration inp \<Longrightarrow>
   npv (calculateNPV_loop inp y cr n c []) =
   cumulativeCashFlow (last (cashFlowData (calculateNPV_loop inp y cr n c [])))"
proof (induction y cr n c rule: rows_induct [where inp = inp])
  case (step y cr n c)
  note le = step.prems(2)
  have eq: "n + year_dcf inp y cr = c + year_dcf inp y cr"
    using step.prems(1) by simp
  show ?case
  proof (cases "y + 1 \<le> contractDuration inp")
    case True
    then have "cashFlowData (calculateNPV_loop inp (y + 1) (next_rent inp y cr)
       (n + year_dcf inp y cr) (c + year_dcf inp y cr) []) \<noteq> []"
      by (simp add: rows_Cons)
    then show ?thesis using step.IH [OF le eq True] le
      by (simp add: rows_Cons npv_step)
  next
    case False
    then show ?thesis using le step.prems(1)
      by (simp add: rows_Cons npv_step loop_stop year_row_def)
  qed
qed

lemma rows_grace:
  "\<forall>e \<in> set (cashFlowData (calculateNPV_loop inp y cr n c [])).
     year e \<le> gracePeriod inp \<longrightarrow> rent e = 0"
proof (induction y cr n c rule: rows_induct [where inp = inp])
  case (step y cr n c)
  show ?case
  proof (cases "y \<le> contractDuration inp")
    case True
    then show ?thesis using step [OF True]
      by (simp add: rows_Cons year_row_def year_rent_grace)
  next
    case False
    then show ?thesis by (simp add: loop_stop)
  qed
qed


lemma js_rem_nonneg:
  "0 \<le> a \<Longrightarrow> 1 \<le> b \<Longrightarrow> js_rem a b = Some (a mod b)"
  by (cases "a = 0") (simp_all add: js_rem_def)

lemma escalation_count:
  fixes a b :: int
  assumes "1 \<le> b"
  shows "nat (a div b) = nat ((a - 1) div b) + (if 1 \<le> a \<and> a mod b = 0 then 1 else 0)"
proof (cases "1 \<le> a")
  case True
  have split: "a = b * (a div b) + a mod b" by simp
  have bounds: "0 \<le> a mod b" "a mod b < b" using assms by simp_all
  show ?thesis
  proof (cases "a mod b = 0")
    case True
    with split have "a - 1 = b * (a div b - 1) + (b - 1)"
      by (simp add: algebra_simps)
    then have "(a - 1) div b = a div b - 1"
      by (rule int_div_pos_eq) (use assms in simp_all)
    moreover have "1 \<le> a div b"
    proof -
      from True have "b dvd a" by (simp add: mod_eq_0_iff_dvd)
      with \<open>1 \<le> a\<close> have "b \<le> a" by (intro zdvd_imp_le) simp_all
      with assms have "0 < a div b" by (simp add: pos_imp_zdiv_pos_iff)
      then show ?thesis by simp
    qed
    ultimately show ?thesis using True \<open>1 \<le> a\<close> by simp
  next
    case False
    with bounds have "1 \<le> a mod b" by simp
    from split have "a - 1 = b * (a div b) + (a mod b - 1)"
      by simp
    then have "(a - 1) div b = a div b"
      by (rule int_div_pos_eq) (use \<open>1 \<le> a mod b\<close> bounds in simp_all)
    with False show ?thesis by simp
  qed
next
  case False
  then have "a \<le> 0" by simp
  then have "a div b \<le> 0" "(a - 1) div b \<le> 0"
    using assms by (simp_all add: div_nonpos_pos_le0)
  with False show ?thesis by simp
qed


lemma next_rent_closed:
  assumes "1 \<le> rentIncreaseInterval inp"
  shows "next_rent inp y
       (r * (1 + rentIncreaseRate inp / 100) ^
          nat ((y - 1 - gracePeriod inp - 1) div rentIncreaseInterval inp)) =
     r * (1 + rentIncreaseRate inp / 100) ^
          nat ((y - gracePeriod inp - 1) div rentIncreaseInterval inp)"
proof -
  have cnt: "nat ((y - gracePeriod inp - 1) div rentIncreaseInterval inp) =
      nat ((y - 1 - gracePeriod inp - 1) div rentIncreaseInterval inp) +
      (if 1 \<le> y - gracePeriod inp - 1 \<and>
          (y - gracePeriod inp - 1) mod rentIncreaseInterval inp = 0 then 1 else 0)"
    using escalation_count [OF assms, of "y - gracePeriod inp - 1"]
    by (simp add: algebra_simps)
  show ?thesis
  proof (cases "gracePeriod inp < y")
    case True
    then have "js_rem (y - gracePeriod inp - 1) (rentIncreaseInterval inp) =
        Some ((y - gracePeriod inp - 1) mod rentIncreaseInterval inp)"
      using assms by (intro js_rem_nonneg) simp_all
    then show ?thesis
      using True by (simp add: next_rent_def rent_step_def cnt)
  next
    case False
    then show ?thesis
      by (simp add: next_rent_def rent_step_def cnt)
  qed
qed

lemma year_rent_post_grace:
  "gracePeriod inp < y \<Longrightarrow> year_rent inp y cr = next_rent inp y cr"
  by (simp add: year_rent_def next_rent_def rent_step_def)

lemma rows_rent_closed:
  assumes "1 \<le> rentIncreaseInterval inp"
  shows "cr = r * (1 + rentIncreaseRate inp / 100) ^
            nat ((y - 1 - gracePeriod inp - 1) div rentIncreaseInterval inp) \<Longrightarrow>
     y \<le> k \<Longrightarrow> k \<le> contractDuration inp \<Longrightarrow> gracePeriod inp < k \<Longrightarrow>
     rent (cashFlowData (calculateNPV_loop inp y cr n c []) ! nat (k - y)) =
     r * (1 + rentIncreaseRate inp / 100) ^
            nat ((k - gracePeriod inp - 1) div rentIncreaseInterval inp)"
proof (induction y cr n c rule: rows_induct [where inp = inp])
  case (step y cr n c)
  from step.prems have le: "y \<le> contractDuration inp" by simp
  have nxt: "next_rent inp y cr = r * (1 + rentIncreaseRate inp / 100) ^
            nat ((y - gracePeriod inp - 1) div rentIncreaseInterval inp)"
    using next_rent_closed [OF assms, of y r] step.prems(1) by simp
  show ?case
  proof (cases "k = y")
    case True
    then show ?thesis
      using le step.prems(4) nxt
      by (simp add: rows_Cons year_row_def year_rent_post_grace)
  next
    case False
    with step.prems have lt: "y + 1 \<le> k" by simp
    then have idx: "nat (k - y) = Suc (nat (k - (y + 1)))" by simp
    have "rent (cashFlowData (calculateNPV_loop inp (y + 1) (next_rent inp y cr)
              (n + year_dcf inp y cr) (c + year_dcf inp y cr) []) ! nat (k - (y + 1))) =
          r * (1 + rentIncreaseRate inp / 100) ^
            nat ((k - gracePeriod inp - 1) div rentIncreaseInterval inp)"
      using nxt lt step.prems(3,4) by (intro step.IH [OF le]) simp_all
    then show ?thesis
      using le by (simp add: rows_Cons idx)
  qed
qed


lemma next_rent_ge:
  "0 \<le> rentIncreaseRate inp \<Longrightarrow> 0 \<le> cr \<Longrightarrow> cr \<le> next_rent inp y cr"
  by (simp add: next_rent_def rent_step_def mult_le_cancel_left1)

lemma year_rent_nonneg:
  "0 \<le> rentIncreaseRate inp \<Longrightarrow> 0 \<le> cr \<Longrightarrow> 0 \<le> year_rent inp y cr"
  by (simp add: year_rent_def rent_step_def)

lemma rows_rent_order:
  assumes rate: "0 \<le> rentIncreaseRate inp"
  shows "0 \<le> cr \<Longrightarrow>
     (\<forall>e \<in> set (cashFlowData (calculateNPV_loop inp y cr n c [])). 0 \<le> rent e) \<and>
     (gracePeriod inp < y \<longrightarrow>
        (\<forall>e \<in> set (cashFlowData (calculateNPV_loop inp y cr n c [])). cr \<le> rent e)) \<and>
     sorted_wrt (\<lambda>a b. gracePeriod inp < year a \<longrightarrow> rent a \<le> rent b)
        (cashFlowData (calculateNPV_loop inp y cr n c []))"
proof (induction y cr n c rule: rows_induct [where inp = inp])
  case (step y cr n c)
  show ?case
  proof (cases "y \<le> contractDuration inp")
    case True
    define rest where "rest = cashFlowData (calculateNPV_loop inp (y + 1) (next_rent inp y cr)
       (n + year_dcf inp y cr) (c + year_dcf inp y cr) [])"
    have rows: "cashFlowData (calculateNPV_loop inp y cr n c []) = year_row inp y cr c # rest"
      using True by (simp add: rows_Cons rest_def)
    have ge: "cr \<le> next_rent inp y cr"
      using rate step.prems by (rule next_rent_ge)
    with step.prems have "0 \<le> next_rent inp y cr" by simp
    from step.IH [OF True this]
    have IH1: "\<forall>e \<in> set rest. 0 \<le> rent e"
      and IH2: "gracePeriod inp < y + 1 \<longrightarrow> (\<forall>e \<in> set rest. next_rent inp y cr \<le> rent e)"
      and IH3: "sorted_wrt (\<lambda>a b. gracePeriod inp < year a \<longrightarrow> rent a \<le> rent b) rest"
      unfolding rest_def by blast+
    have head_nonneg: "0 \<le> rent (year_row inp y cr c)"
      using year_rent_nonneg [OF rate step.prems] by (simp add: year_row_def)
    have head_rent: "gracePeriod inp < y \<Longrightarrow> rent (year_row inp y cr c) = next_rent inp y cr"
      by (simp add: year_row_def year_rent_post_grace)
    have head_year: "year (year_row inp y cr c) = y"
      by (simp add: year_row_def)
    show ?thesis
      unfolding rows using IH1 IH2 IH3 head_nonneg head_rent head_year ge
      by (auto simp del: year_row_def)
  next
    case False
    then show ?thesis by (simp add: loop_stop)
  qed
qed

lemma payback_none:
  "\<forall>j. i \<le> j \<and> j < length d \<longrightarrow> cumulativeCashFlow (d ! j) < 0 \<Longrightarrow>
   calculatePaybackPeriod_loop d i = length d"
proof (induction d i rule: calculatePaybackPeriod_loop.induct)
  case (1 d i)
  show ?case
  proof (cases "i < length d")
    case True
    with "1.prems" have neg: "\<not> 0 \<le> cumulativeCashFlow (d ! i)" by auto
    have "calculatePaybackPeriod_loop d (i + 1) = length d"
      using True neg "1.prems" by (intro "1.IH") auto
    then show ?thesis
      using True neg by (subst calculatePaybackPeriod_loop.simps) simp
  next
    case False
    then show ?thesis by (subst calculatePaybackPeriod_loop.simps) simp
  qed
qed

lemma payback_first:
  "i \<le> k \<Longrightarrow> k < length d \<Longrightarrow> 0 \<le> cumulativeCashFlow (d ! k) \<Longrightarrow>
   \<forall>j. i \<le> j \<and> j < k \<longrightarrow> cumulativeCashFlow (d ! j) < 0 \<Longrightarrow>
   calculatePaybackPeriod_loop d i = k + 1"
proof (induction d i rule: calculatePaybackPeriod_loop.induct)
  case (1 d i)
  from "1.prems" have lt: "i < length d" by simp
  show ?case
  proof (cases "0 \<le> cumulativeCashFlow (d ! i)")
    case True
    with "1.prems" have "i = k" by (metis le_neq_implies_less not_le order_refl)
    with True lt show ?thesis by (subst calculatePaybackPeriod_loop.simps) simp
  next
    case False
    with "1.prems" have "i \<noteq> k" by auto
    with "1.prems" have "i + 1 \<le> k" by simp
    have "calculatePaybackPeriod_loop d (i + 1) = k + 1"
      using lt False \<open>i + 1 \<le> k\<close> "1.prems" by (intro "1.IH") auto
    then show ?thesis
      using lt False by (subst calculatePaybackPeriod_loop.simps) simp
  qed
qed

lemma schedule_nth_year:
  assumes "1 \<le> y" and "y \<le> contractDuration inp"
  shows "year (cashFlowData (calculateNPV r inp) ! nat (y - 1)) = y"
proof -
  let ?s = "cashFlowData (calculateNPV r inp)"
  have len: "nat (y - 1) < length ?s"
    using assms by (simp add: calculateNPV_def rows_length)
  have "year (?s ! nat (y - 1)) = map year ?s ! nat (y - 1)"
    using len by simp
  also have "\<dots> = [1..contractDuration inp] ! nat (y - 1)"
    by (simp only: calculateNPV_def rows_years)
  also have "\<dots> = y"
    using assms by (simp add: nth_upto)
  finally show ?thesis .
qed

section \<open>Properties of the bisection loop\<close>

lemma find_step_up:
  "high - low > 1000 \<Longrightarrow> iterations < 50 \<Longrightarrow>
   0 \<le> npv (calculateNPV (of_int ((low + high) div 2)) inp) \<Longrightarrow>
   findOptimalRent_loop inp low high opt iterations =
   findOptimalRent_loop inp ((low + high) div 2) high ((low + high) div 2) (iterations + 1)"
  by (subst findOptimalRent_loop.simps) (simp add: Let_def)

lemma find_step_down:
  "high - low > 1000 \<Longrightarrow> iterations < 50 \<Longrightarrow>
   npv (calculateNPV (of_int ((low + high) div 2)) inp) < 0 \<Longrightarrow>
   findOptimalRent_loop inp low high opt iterations =
   findOptimalRent_loop inp low ((low + high) div 2) opt (iterations + 1)"
  by (subst findOptimalRent_loop.simps) (simp add: Let_def)

lemma find_stop:
  "\<not> (high - low > 1000 \<and> iterations < 50) \<Longrightarrow>
   findOptimalRent_loop inp low high opt iterations = opt"
  by (subst findOptimalRent_loop.simps) auto

lemma find_all_infeasible:
  "\<forall>m. low \<le> m \<and> m \<le> high \<longrightarrow> npv (calculateNPV (of_int m) inp) < 0 \<Longrightarrow>
   findOptimalRent_loop inp low high opt iterations = opt"
proof (induction inp low high opt iterations rule: findOptimalRent_loop.induct)
  case (1 inp low high opt iterations)
  show ?case
  proof (cases "high - low > 1000 \<and> iterations < 50")
    case True
    let ?mid = "(low + high) div 2"
    from True have bounds: "low \<le> ?mid" "?mid \<le> high" by presburger+
    with "1.prems" have neg: "npv (calculateNPV (of_int ?mid) inp) < 0" by blast
    then have nge: "\<not> 0 \<le> npv (calculateNPV (of_int ?mid) inp)" by simp
    have "findOptimalRent_loop inp low ?mid opt (iterations + 1) = opt"
      using True nge bounds "1.prems" by (intro "1.IH"(2) [OF True refl nge]) auto
    then show ?thesis using True neg by (simp add: find_step_down)
  next
    case False
    then show ?thesis by (rule find_stop)
  qed
qed

lemma find_ceiling:
  assumes "\<And>r. 25000000 \<le> r \<Longrightarrow> 0 \<le> npv (calculateNPV r inp)"
  shows "findOptimalRent inp = 49999237"
  unfolding findOptimalRent_def
  by (simp add: find_step_up find_stop assms)

lemma npv_mono:
  assumes "valid_params inp" and "r1 \<le> r2"
  shows "npv (calculateNPV r1 inp) \<le> npv (calculateNPV r2 inp)"
proof -
  from assms(1) have "0 \<le> 1 + rentIncreaseRate inp / 100"
    and "0 < 1 + capitalizationRate inp / 100"
    by (simp_all add: valid_params_def)
  then show ?thesis
    unfolding calculateNPV_def using assms(2) by (intro npv_loop_mono) simp_all
qed

lemma find_floor:
  assumes "\<And>r. r \<le> 25000000 \<Longrightarrow> npv (calculateNPV r inp) < 0"
  shows "findOptimalRent inp = 0"
proof -
  have "findOptimalRent_loop inp 0 50000000 0 0 = findOptimalRent_loop inp 0 25000000 0 1"
    using assms [of 25000000] find_step_down [of 50000000 0 0 inp 0] by simp
  also have "\<dots> = 0"
  proof (rule find_all_infeasible, intro allI impI)
    fix m :: int
    assume "0 \<le> m \<and> m \<le> 25000000"
    then have "real_of_int m \<le> 25000000" by simp
    then show "npv (calculateNPV (real_of_int m) inp) < 0" by (rule assms)
  qed
  finally show ?thesis by (simp add: findOptimalRent_def)
qed

lemma findOptimalRent_two_values:
  assumes "valid_params inp"
  shows "findOptimalRent inp =
     (if 0 \<le> npv (calculateNPV 25000000 inp) then 49999237 else 0)"
proof (cases "0 \<le> npv (calculateNPV 25000000 inp)")
  case True
  have "findOptimalRent inp = 49999237"
  proof (rule find_ceiling)
    fix r :: real
    assume "25000000 \<le> r"
    with assms have "npv (calculateNPV 25000000 inp) \<le> npv (calculateNPV r inp)"
      by (rule npv_mono)
    with True show "0 \<le> npv (calculateNPV r inp)" by simp
  qed
  with True show ?thesis by simp
next
  case False
  have "findOptimalRent inp = 0"
  proof (rule find_floor)
    fix r :: real
    assume "r \<le> 25000000"
    with assms have "npv (calculateNPV r inp) \<le> npv (calculateNPV 25000000 inp)"
      by (rule npv_mono)
    with False show "npv (calculateNPV r inp) < 0" by simp
  qed
  with False show ?thesis by simp
qed

lemma no_rent_on_a_sign_change:
  assumes "valid_params inp"
  shows "\<not> (0 \<le> npv (calculateNPV r inp) \<and> npv (calculateNPV (r + 1000) inp) < 0)"
  using npv_mono [OF assms, of r "r + 1000"] by simp

lemma payback_loop_bounds:
  "i < length d \<Longrightarrow>
   i < calculatePaybackPeriod_loop d i \<and> calculatePaybackPeriod_loop d i \<le> length d"
proof (induction d i rule: calculatePaybackPeriod_loop.induct)
  case (1 d i)
  show ?case
  proof (cases "0 \<le> cumulativeCashFlow (d ! i)")
    case True
    with "1.prems" show ?thesis
      by (subst (1 2) calculatePaybackPeriod_loop.simps) simp
  next
    case False
    show ?thesis
    proof (cases "i + 1 < length d")
      case True
      from "1.IH" [OF "1.prems" False True]
      have "i + 1 < calculatePaybackPeriod_loop d (i + 1)
          \<and> calculatePaybackPeriod_loop d (i + 1) \<le> length d" .
      with "1.prems" False show ?thesis
        by (subst (1 2) calculatePaybackPeriod_loop.simps) simp
    next
      case False
      with "1.prems" have "calculatePaybackPeriod_loop d (i + 1) = length d"
        by (subst calculatePaybackPeriod_loop.simps) simp
      with "1.prems" \<open>\<not> 0 \<le> cumulativeCashFlow (d ! i)\<close> show ?thesis
        by (subst (1 2) calculatePaybackPeriod_loop.simps) simp
    qed
  qed
qed

lemma payback_bounds:
  "d \<noteq> [] \<Longrightarrow> 1 \<le> calculatePaybackPeriod d \<and> calculatePaybackPeriod d \<le> length d"
  using payback_loop_bounds [of 0 d] by (simp add: calculatePaybackPeriod_def Suc_le_eq)

subsection \<open>The default lease and the five-year lease, evaluated\<close>

lemma npv_default_25: "1000 < npv (calculateNPV 25000000 default_inputs)"
  by (simp add: calculateNPV_def default_inputs_def calculateNPV_loop.simps rent_step_def
      js_rem_def Let_def power_divide)

lemma npv_short_25: "npv (calculateNPV 25000000 short_lease) < 0"
  by (simp add: calculateNPV_def short_lease_def default_inputs_def calculateNPV_loop.simps rent_step_def
      js_rem_def Let_def power_divide)

lemma npv_short_45: "0 \<le> npv (calculateNPV 45000000 short_lease)"
  by (simp add: calculateNPV_def short_lease_def default_inputs_def calculateNPV_loop.simps rent_step_def
      js_rem_def Let_def power_divide)

lemma valid_short_lease: "valid_params short_lease"
  by (simp add: valid_params_def short_lease_def default_inputs_def)

lemma getInputValues_default_form: "getInputValues default_form = default_inputs"
  by (simp add: getInputValues_def default_form_def default_inputs_def or_default_def)

text \<open>
  A development-cost field holding 0 never reaches the validation: the default
  replaces it, and the computation runs as for the default form.
\<close>

lemma zero_cost_field_defaulted:
  "getInputValues (default_form\<lparr>totalDevelopmentCost_field := Some 0\<rparr>) = default_inputs"
  by (simp add: getInputValues_def default_form_def default_inputs_def or_default_def)

lemma zero_duration_field_defaulted:
  "getInputValues (default_form\<lparr>contractDuration_field := Some 0\<rparr>) = default_inputs"
  by (simp add: getInputValues_def default_form_def default_inputs_def or_default_def)

text \<open>
  What \<open>calculateOptimalRent\<close> does depends on the form only through the record
  \<open>getInputValues\<close> returns; on that record the two checks and the calls after
  them are as follows.
\<close>

lemma calculateOptimalRent_reads_record:
  "getInputValues f = getInputValues g \<Longrightarrow> calculateOptimalRent f = calculateOptimalRent g"
  by (simp add: calculateOptimalRent_def)

lemma calculateOptimalRent_on_record:
  "(totalDevelopmentCost (getInputValues f) \<le> 0 \<longrightarrow>
      calculateOptimalRent f = [Alert DevelopmentCostAlert])
   \<and> (0 < totalDevelopmentCost (getInputValues f) \<and> contractDuration (getInputValues f) \<le> 0 \<longrightarrow>
      calculateOptimalRent f = [Alert ContractDurationAlert])
   \<and> (0 < totalDevelopmentCost (getInputValues f) \<and> 0 < contractDuration (getInputValues f) \<longrightarrow>
      calculateOptimalRent f =
        [Call_findOptimalRent (getInputValues f),
         Call_calculateNPV (real_of_int (findOptimalRent (getInputValues f))) (getInputValues f),
         Call_calculatePaybackPeriod (cashFlowData
           (calculateNPV (real_of_int (findOptimalRent (getInputValues f))) (getInputValues f))),
         Call_calculateAnnualReturn (real_of_int (findOptimalRent (getInputValues f)))
           (totalDevelopmentCost (getInputValues f)),
         Call_updateResults (real_of_int (findOptimalRent (getInputValues f)))
           (npv (calculateNPV (real_of_int (findOptimalRent (getInputValues f))) (getInputValues f)))
           (calculatePaybackPeriod (cashFlowData
             (calculateNPV (real_of_int (findOptimalRent (getInputValues f))) (getInputValues f))))
           (calculateAnnualReturn (real_of_int (findOptimalRent (getInputValues f)))
             (totalDevelopmentCost (getInputValues f))),
         Call_updateCashFlowTable (cashFlowData
           (calculateNPV (real_of_int (findOptimalRent (getInputValues f))) (getInputValues f))),
         Call_updateSlider (real_of_int (findOptimalRent (getInputValues f))),
         Call_updateRentValue,
         ConsoleLog (real_of_int (findOptimalRent (getInputValues f)))
           (npv (calculateNPV (real_of_int (findOptimalRent (getInputValues f))) (getInputValues f)))
           (calculatePaybackPeriod (cashFlowData
             (calculateNPV (real_of_int (findOptimalRent (getInputValues f))) (getInputValues f))))
           (calculateAnnualReturn (real_of_int (findOptimalRent (getInputValues f)))
             (totalDevelopmentCost (getInputValues f)))])"
  by (simp add: calculateOptimalRent_def Let_def)


section \<open>Claims about the net present value\<close>

text \<open>
  C4. For fixed valid parameters the net present value does not decrease when
  the candidate annual rent grows: \<open>r1 \<le> r2\<close> gives
  \<open>npv (calculateNPV r1 inp) \<le> npv (calculateNPV r2 inp)\<close>.
\<close>

theorem npv_monotone:
  assumes "valid_params inp" and "r1 \<le> r2"
  shows "npv (calculateNPV r1 inp) \<le> npv (calculateNPV r2 inp)"
proof -
  from assms(1) have "0 \<le> 1 + rentIncreaseRate inp / 100"
    and "0 < 1 + capitalizationRate inp / 100"
    by (simp_all add: valid_params_def)
  then show ?thesis
    unfolding calculateNPV_def using assms(2) by (intro npv_loop_mono) simp_all
qed

theorem npv_monotone_witness:
  "valid_params default_inputs \<and> (1000000 :: real) \<le> 2000000
   \<and> npv (calculateNPV 1000000 default_inputs) \<le> npv (calculateNPV 2000000 default_inputs)"
proof -
  have le: "(1000000 :: real) \<le> 2000000" by simp
  show ?thesis
    using valid_default_inputs le npv_monotone [OF valid_default_inputs le] by simp
qed

text \<open>
  C5. For valid parameters a candidate rent of zero gives a net present value
  of exactly the negated development cost.
\<close>

theorem npv_zero_rent_exact:
  assumes "valid_params inp"
  shows "npv (calculateNPV 0 inp) = - totalDevelopmentCost inp"
  unfolding calculateNPV_def by (rule npv_zero_rent)

theorem npv_zero_rent_exact_witness:
  "valid_params default_inputs \<and> npv (calculateNPV 0 default_inputs) = - 93480000"
  using valid_default_inputs npv_zero_rent_exact [OF valid_default_inputs]
  by (simp add: default_inputs_def)

section \<open>Claims about the rent schedule\<close>

text \<open>
  C2. For valid parameters and every contract year \<open>y\<close> after the grace period,
  the row of year \<open>y\<close> charges the candidate rent multiplied by
  \<open>(1 + rentIncreaseRate / 100)\<close> to the power
  \<open>(y - gracePeriod - 1) div rentIncreaseInterval\<close>. The first year after the
  grace period is charged the candidate rent itself, and a later year is charged
  the previous year's rent, escalated exactly when
  \<open>(y - gracePeriod - 1) mod rentIncreaseInterval = 0\<close>.
\<close>

theorem rent_schedule_closed_form:
  assumes "valid_params inp" and "gracePeriod inp < y" and "y \<le> contractDuration inp"
  shows "year (cashFlowData (calculateNPV annualRent inp) ! nat (y - 1)) = y
     \<and> rent (cashFlowData (calculateNPV annualRent inp) ! nat (y - 1)) =
         annualRent * (1 + rentIncreaseRate inp / 100) ^
           nat ((y - gracePeriod inp - 1) div rentIncreaseInterval inp)
     \<and> (y = gracePeriod inp + 1 \<longrightarrow>
           rent (cashFlowData (calculateNPV annualRent inp) ! nat (y - 1)) = annualRent)
     \<and> (gracePeriod inp + 1 < y \<longrightarrow>
           rent (cashFlowData (calculateNPV annualRent inp) ! nat (y - 1)) =
           (if (y - gracePeriod inp - 1) mod rentIncreaseInterval inp = 0
            then rent (cashFlowData (calculateNPV annualRent inp) ! nat (y - 1 - 1))
                   * (1 + rentIncreaseRate inp / 100)
            else rent (cashFlowData (calculateNPV annualRent inp) ! nat (y - 1 - 1))))"
proof -
  let ?s = "cashFlowData (calculateNPV annualRent inp)"
  let ?f = "1 + rentIncreaseRate inp / 100"
  let ?e = "\<lambda>k. nat ((k - gracePeriod inp - 1) div rentIncreaseInterval inp)"
  from assms(1) have g: "0 \<le> gracePeriod inp" and I: "1 \<le> rentIncreaseInterval inp"
    by (simp_all add: valid_params_def)
  have start: "annualRent = annualRent * ?f ^ ?e (1 - 1)"
  proof -
    have "(1 - 1 - gracePeriod inp - 1) div rentIncreaseInterval inp \<le> 0"
      using g I by (intro div_nonpos_pos_le0) simp_all
    then show ?thesis by simp
  qed
  have closed: "rent (?s ! nat (k - 1)) = annualRent * ?f ^ ?e k"
    if "gracePeriod inp < k" "k \<le> contractDuration inp" for k
    unfolding calculateNPV_def
    using that g by (intro rows_rent_closed [OF I]) (use start in simp_all)
  have yr: "year (?s ! nat (y - 1)) = y"
    using assms(2,3) g by (intro schedule_nth_year) simp_all
  have first: "rent (?s ! nat (y - 1)) = annualRent" if "y = gracePeriod inp + 1"
    using closed [OF assms(2,3)] that by simp
  have rec: "rent (?s ! nat (y - 1)) =
      (if (y - gracePeriod inp - 1) mod rentIncreaseInterval inp = 0
       then rent (?s ! nat (y - 1 - 1)) * ?f else rent (?s ! nat (y - 1 - 1)))"
    if lt: "gracePeriod inp + 1 < y"
  proof -
    have prev: "rent (?s ! nat (y - 1 - 1)) = annualRent * ?f ^ ?e (y - 1)"
      using closed [of "y - 1"] lt assms(3) by simp
    have "?e y = ?e (y - 1) +
        (if 1 \<le> y - gracePeriod inp - 1 \<and> (y - gracePeriod inp - 1) mod rentIncreaseInterval inp = 0
         then 1 else 0)"
      using escalation_count [OF I, of "y - gracePeriod inp - 1"] by (simp add: algebra_simps)
    with lt have "?e y = ?e (y - 1) +
        (if (y - gracePeriod inp - 1) mod rentIncreaseInterval inp = 0 then 1 else 0)"
      by simp
    then show ?thesis
      using closed [OF assms(2,3)] prev by simp
  qed
  from yr closed [OF assms(2,3)] first rec show ?thesis by blast
qed

theorem rent_schedule_closed_form_witness:
  "valid_params default_inputs \<and> gracePeriod default_inputs < 8
   \<and> 8 \<le> contractDuration default_inputs
   \<and> rent (cashFlowData (calculateNPV 1000 default_inputs) ! 7) = 1100
   \<and> rent (cashFlowData (calculateNPV 1000 default_inputs) ! 6) = 1000"
proof -
  have h2: "gracePeriod default_inputs < 8" and h3: "8 \<le> contractDuration default_inputs"
    and h2': "gracePeriod default_inputs < 7" and h3': "7 \<le> contractDuration default_inputs"
    by (simp_all add: default_inputs_def)
  show ?thesis
    using valid_default_inputs h2 h3
      rent_schedule_closed_form [OF valid_default_inputs h2 h3, of 1000]
      rent_schedule_closed_form [OF valid_default_inputs h2' h3', of 1000]
    by (simp add: default_inputs_def)
qed

text \<open>
  C10. For a non-negative candidate rent and a non-negative escalation rate,
  every rent in the schedule is non-negative, and from the first year after the
  grace period on the rent never decreases from one row to a later one.
\<close>

theorem rent_nonnegative_nondecreasing:
  assumes "0 \<le> annualRent" and "0 \<le> rentIncreaseRate inp"
  shows "(\<forall>i < length (cashFlowData (calculateNPV annualRent inp)).
            0 \<le> rent (cashFlowData (calculateNPV annualRent inp) ! i))
     \<and> (\<forall>i j. i \<le> j \<and> j < length (cashFlowData (calculateNPV annualRent inp))
            \<and> gracePeriod inp < year (cashFlowData (calculateNPV annualRent inp) ! i) \<longrightarrow>
            rent (cashFlowData (calculateNPV annualRent inp) ! i)
            \<le> rent (cashFlowData (calculateNPV annualRent inp) ! j))"
proof -
  define s where "s = cashFlowData (calculateNPV annualRent inp)"
  note ord = rows_rent_order [OF assms(2) assms(1), of 1 "- totalDevelopmentCost inp"
      "- totalDevelopmentCost inp", folded calculateNPV_def, folded s_def]
  from ord have nonneg: "\<forall>e \<in> set s. 0 \<le> rent e" by blast
  from ord have sorted: "sorted_wrt (\<lambda>a b. gracePeriod inp < year a \<longrightarrow> rent a \<le> rent b) s"
    by blast
  have "\<forall>i < length s. 0 \<le> rent (s ! i)"
    using nonneg by simp
  moreover have "\<forall>i j. i \<le> j \<and> j < length s \<and> gracePeriod inp < year (s ! i) \<longrightarrow>
      rent (s ! i) \<le> rent (s ! j)"
  proof (intro allI impI)
    fix i j
    assume h: "i \<le> j \<and> j < length s \<and> gracePeriod inp < year (s ! i)"
    show "rent (s ! i) \<le> rent (s ! j)"
    proof (cases "i = j")
      case True
      then show ?thesis by simp
    next
      case False
      with h have "i < j" by simp
      with sorted h show ?thesis
        by (simp add: sorted_wrt_iff_nth_less)
    qed
  qed
  ultimately show ?thesis unfolding s_def by blast
qed

theorem rent_nonnegative_nondecreasing_witness:
  "(0 :: real) \<le> 1000 \<and> 0 \<le> rentIncreaseRate default_inputs
   \<and> 0 \<le> rent (cashFlowData (calculateNPV 1000 default_inputs) ! 0)
   \<and> rent (cashFlowData (calculateNPV 1000 default_inputs) ! 6)
        \<le> rent (cashFlowData (calculateNPV 1000 default_inputs) ! 7)"
proof -
  define s where "s = cashFlowData (calculateNPV 1000 default_inputs)"
  have h1: "(0 :: real) \<le> 1000" by simp
  have h2: "0 \<le> rentIncreaseRate default_inputs" by (simp add: default_inputs_def)
  have len: "length s = 20"
    by (simp add: s_def calculateNPV_def rows_length default_inputs_def)
  have yr: "year (s ! 6) = 7"
    using schedule_nth_year [of 7 default_inputs 1000] by (simp add: s_def default_inputs_def)
  note inst = rent_nonnegative_nondecreasing [OF h1 h2, folded s_def]
  from inst have a: "\<forall>i < length s. 0 \<le> rent (s ! i)" by blast
  from inst have b: "\<forall>i j. i \<le> j \<and> j < length s \<and> gracePeriod default_inputs < year (s ! i) \<longrightarrow>
      rent (s ! i) \<le> rent (s ! j)" by blast
  have "0 \<le> rent (s ! 0)" using a len by simp
  moreover have "rent (s ! 6) \<le> rent (s ! 7)"
    using b [rule_format, of 6 7] len yr by (simp add: default_inputs_def)
  ultimately show ?thesis using h1 h2 unfolding s_def by blast
qed

text \<open>
  C7. For valid parameters every row of a year within the grace period charges
  no rent. When the grace period covers the whole contract, the net present
  value is the negated development cost for every candidate rent, and the
  search returns 0.
\<close>

theorem grace_period_zero_rent:
  assumes "valid_params inp"
  shows "(\<forall>y. 1 \<le> y \<and> y \<le> gracePeriod inp \<and> y \<le> contractDuration inp \<longrightarrow>
            year (cashFlowData (calculateNPV r inp) ! nat (y - 1)) = y
            \<and> rent (cashFlowData (calculateNPV r inp) ! nat (y - 1)) = 0)
     \<and> (contractDuration inp \<le> gracePeriod inp \<longrightarrow>
            npv (calculateNPV r inp) = - totalDevelopmentCost inp
            \<and> findOptimalRent inp = 0)"
proof (intro conjI allI impI)
  fix y
  assume y: "1 \<le> y \<and> y \<le> gracePeriod inp \<and> y \<le> contractDuration inp"
  then show yr: "year (cashFlowData (calculateNPV r inp) ! nat (y - 1)) = y"
    by (intro schedule_nth_year) simp_all
  have "nat (y - 1) < length (cashFlowData (calculateNPV r inp))"
    using y by (simp add: calculateNPV_def rows_length)
  then have "cashFlowData (calculateNPV r inp) ! nat (y - 1) \<in> set (cashFlowData (calculateNPV r inp))"
    by (rule nth_mem)
  then show "rent (cashFlowData (calculateNPV r inp) ! nat (y - 1)) = 0"
    using rows_grace [of inp 1 r "- totalDevelopmentCost inp" "- totalDevelopmentCost inp"] yr y
    by (simp add: calculateNPV_def)
next
  assume deg: "contractDuration inp \<le> gracePeriod inp"
  then show "npv (calculateNPV r inp) = - totalDevelopmentCost inp"
    unfolding calculateNPV_def by (rule npv_all_grace)
  from assms have pos: "0 < totalDevelopmentCost inp"
    by (simp add: valid_params_def)
  have "\<forall>m. 0 \<le> m \<and> m \<le> 50000000 \<longrightarrow> npv (calculateNPV (of_int m) inp) < 0"
    using pos npv_all_grace [OF deg] by (simp add: calculateNPV_def)
  then show "findOptimalRent inp = 0"
    unfolding findOptimalRent_def by (rule find_all_infeasible)
qed

theorem grace_period_zero_rent_witness:
  "valid_params (default_inputs\<lparr>contractDuration := 2\<rparr>)
   \<and> rent (cashFlowData (calculateNPV 5000000 (default_inputs\<lparr>contractDuration := 2\<rparr>)) ! 0) = 0
   \<and> npv (calculateNPV 5000000 (default_inputs\<lparr>contractDuration := 2\<rparr>)) = - 93480000
   \<and> findOptimalRent (default_inputs\<lparr>contractDuration := 2\<rparr>) = 0"
proof -
  define p where "p = default_inputs\<lparr>contractDuration := 2\<rparr>"
  have v: "valid_params p"
    by (simp add: p_def valid_params_def default_inputs_def)
  have fields: "contractDuration p = 2" "gracePeriod p = 2" "totalDevelopmentCost p = 93480000"
    by (simp_all add: p_def default_inputs_def)
  note inst = grace_period_zero_rent [OF v, of 5000000, unfolded fields]
  from inst have "\<forall>y. 1 \<le> y \<and> y \<le> 2 \<longrightarrow>
      rent (cashFlowData (calculateNPV 5000000 p) ! nat (y - 1)) = 0"
    by simp
  from this [rule_format, of 1] have "rent (cashFlowData (calculateNPV 5000000 p) ! 0) = 0"
    by simp
  moreover from inst have "npv (calculateNPV 5000000 p) = - 93480000"
    by simp
  moreover from inst have "findOptimalRent p = 0"
    by simp
  ultimately show ?thesis using v unfolding p_def by simp
qed

section \<open>Claims about the result record and the payback period\<close>

text \<open>
  C6. For valid parameters the schedule has one row per contract year, the rows
  carry the years 1 to \<open>contractDuration\<close> in order, each cumulative cash flow
  is its predecessor's (the negated development cost for the first row) plus the
  row's discounted cash flow, and the returned net present value is the
  cumulative cash flow of the last row.
\<close>

theorem schedule_well_formed:
  assumes "valid_params inp"
  shows "length (cashFlowData (calculateNPV r inp)) = nat (contractDuration inp)
     \<and> map year (cashFlowData (calculateNPV r inp)) = [1..contractDuration inp]
     \<and> (\<forall>i < length (cashFlowData (calculateNPV r inp)).
           cumulativeCashFlow (cashFlowData (calculateNPV r inp) ! i) =
           (if i = 0 then - totalDevelopmentCost inp
            else cumulativeCashFlow (cashFlowData (calculateNPV r inp) ! (i - 1)))
           + discountedCashFlow (cashFlowData (calculateNPV r inp) ! i))
     \<and> npv (calculateNPV r inp) =
         cumulativeCashFlow (last (cashFlowData (calculateNPV r inp)))"
proof -
  from assms have cd: "1 \<le> contractDuration inp"
    by (simp add: valid_params_def)
  have "length (cashFlowData (calculateNPV r inp)) = nat (contractDuration inp)"
    by (simp add: calculateNPV_def rows_length)
  moreover have "map year (cashFlowData (calculateNPV r inp)) = [1..contractDuration inp]"
    by (simp only: calculateNPV_def rows_years)
  moreover have "\<forall>i < length (cashFlowData (calculateNPV r inp)).
           cumulativeCashFlow (cashFlowData (calculateNPV r inp) ! i) =
           (if i = 0 then - totalDevelopmentCost inp
            else cumulativeCashFlow (cashFlowData (calculateNPV r inp) ! (i - 1)))
           + discountedCashFlow (cashFlowData (calculateNPV r inp) ! i)"
    unfolding calculateNPV_def by (rule rows_cumulative)
  moreover have "npv (calculateNPV r inp) =
         cumulativeCashFlow (last (cashFlowData (calculateNPV r inp)))"
    unfolding calculateNPV_def using cd by (intro npv_last_row) simp_all
  ultimately show ?thesis by blast
qed

theorem schedule_well_formed_witness:
  "valid_params default_inputs
   \<and> length (cashFlowData (calculateNPV 1000 default_inputs)) = 20
   \<and> map year (cashFlowData (calculateNPV 1000 default_inputs)) = [1..20]
   \<and> cumulativeCashFlow (cashFlowData (calculateNPV 1000 default_inputs) ! 0) =
       - 93480000 + discountedCashFlow (cashFlowData (calculateNPV 1000 default_inputs) ! 0)
   \<and> cumulativeCashFlow (cashFlowData (calculateNPV 1000 default_inputs) ! 3) =
       cumulativeCashFlow (cashFlowData (calculateNPV 1000 default_inputs) ! 2)
       + discountedCashFlow (cashFlowData (calculateNPV 1000 default_inputs) ! 3)
   \<and> npv (calculateNPV 1000 default_inputs) =
       cumulativeCashFlow (last (cashFlowData (calculateNPV 1000 default_inputs)))"
proof -
  define s where "s = cashFlowData (calculateNPV 1000 default_inputs)"
  have cd: "contractDuration default_inputs = 20"
    and tdc: "totalDevelopmentCost default_inputs = 93480000"
    by (simp_all add: default_inputs_def)
  note wf = schedule_well_formed [OF valid_default_inputs, of 1000, folded s_def, unfolded cd tdc]
  from wf have len: "length s = 20" by simp
  from wf have yrs: "map year s = [1..20]" by blast
  from wf have chain: "\<forall>i < length s. cumulativeCashFlow (s ! i) =
      (if i = 0 then - 93480000 else cumulativeCashFlow (s ! (i - 1)))
      + discountedCashFlow (s ! i)" by blast
  from wf have fin: "npv (calculateNPV 1000 default_inputs) = cumulativeCashFlow (last s)"
    by blast
  have c0: "cumulativeCashFlow (s ! 0) = - 93480000 + discountedCashFlow (s ! 0)"
    using chain [rule_format, of 0] len by simp
  have c3: "cumulativeCashFlow (s ! 3) = cumulativeCashFlow (s ! 2) + discountedCashFlow (s ! 3)"
    using chain [rule_format, of 3] len by simp
  from valid_default_inputs len yrs c0 c3 fin show ?thesis
    unfolding s_def by blast
qed

text \<open>
  C8. \<open>calculatePaybackPeriod\<close> returns the 1-based position of the first row
  whose cumulative cash flow is non-negative, and the length of the schedule
  when no row has a non-negative cumulative cash flow.
\<close>

theorem payback_first_nonnegative:
  "(\<forall>k. k < length d \<and> 0 \<le> cumulativeCashFlow (d ! k)
         \<and> (\<forall>j < k. cumulativeCashFlow (d ! j) < 0)
       \<longrightarrow> calculatePaybackPeriod d = k + 1)
   \<and> ((\<forall>j < length d. cumulativeCashFlow (d ! j) < 0)
       \<longrightarrow> calculatePaybackPeriod d = length d)"
proof (intro conjI allI impI)
  fix k
  assume "k < length d \<and> 0 \<le> cumulativeCashFlow (d ! k)
         \<and> (\<forall>j < k. cumulativeCashFlow (d ! j) < 0)"
  then show "calculatePaybackPeriod d = k + 1"
    unfolding calculatePaybackPeriod_def by (intro payback_first) simp_all
next
  assume "\<forall>j < length d. cumulativeCashFlow (d ! j) < 0"
  then show "calculatePaybackPeriod d = length d"
    unfolding calculatePaybackPeriod_def by (intro payback_none) simp
qed


theorem payback_first_nonnegative_witness:
  "calculatePaybackPeriod
     [\<lparr>year = 1, rent = 0, discountedCashFlow = 0, cumulativeCashFlow = - 5\<rparr>,
      \<lparr>year = 2, rent = 9, discountedCashFlow = 8, cumulativeCashFlow = 3\<rparr>,
      \<lparr>year = 3, rent = 9, discountedCashFlow = 7, cumulativeCashFlow = 10\<rparr>] = 2
   \<and> calculatePaybackPeriod
     [\<lparr>year = 1, rent = 0, discountedCashFlow = 0, cumulativeCashFlow = - 5\<rparr>,
      \<lparr>year = 2, rent = 2, discountedCashFlow = 1, cumulativeCashFlow = - 4\<rparr>] = 2"
proof -
  let ?d1 = "[\<lparr>year = 1, rent = 0, discountedCashFlow = 0, cumulativeCashFlow = - 5\<rparr>,
      \<lparr>year = 2, rent = 9, discountedCashFlow = 8, cumulativeCashFlow = 3\<rparr>,
      \<lparr>year = 3, rent = 9, discountedCashFlow = 7, cumulativeCashFlow = 10 :: real\<rparr>]"
  let ?d2 = "[\<lparr>year = 1, rent = 0, discountedCashFlow = 0, cumulativeCashFlow = - 5\<rparr>,
      \<lparr>year = 2, rent = 2, discountedCashFlow = 1, cumulativeCashFlow = - 4 :: real\<rparr>]"
  have h1: "1 < length ?d1 \<and> 0 \<le> cumulativeCashFlow (?d1 ! 1)
      \<and> (\<forall>j < 1. cumulativeCashFlow (?d1 ! j) < 0)"
    by simp
  have h2: "\<forall>j < length ?d2. cumulativeCashFlow (?d2 ! j) < 0"
    by (simp add: less_Suc_eq numeral_2_eq_2)
  from payback_first_nonnegative [of ?d1] h1 have "calculatePaybackPeriod ?d1 = 1 + 1"
    by blast
  moreover from payback_first_nonnegative [of ?d2] h2
  have "calculatePaybackPeriod ?d2 = length ?d2"
    by blast
  ultimately show ?thesis by simp
qed

section \<open>Claims about the search and the entry point\<close>

text \<open>
  C1. The claim: for valid parameters with a feasible positive rent,
  \<open>findOptimalRent\<close> returns a rent with a non-negative net present value whose
  successor at distance 1000 has a negative one. The search does not do that.
  For the five-year lease a rent of 45,000,000 is feasible, yet the search
  returns 0, whose net present value is negative; for the default lease it
  returns a rent whose successor at distance 1000 still has a non-negative net
  present value.
\<close>

theorem search_misses_feasible_rent:
  "valid_params short_lease
   \<and> 0 \<le> npv (calculateNPV 45000000 short_lease)
   \<and> findOptimalRent short_lease = 0
   \<and> npv (calculateNPV (real_of_int (findOptimalRent short_lease)) short_lease) < 0
   \<and> valid_params default_inputs
   \<and> 0 \<le> npv (calculateNPV (real_of_int (findOptimalRent default_inputs) + 1000) default_inputs)"
proof -
  have short: "findOptimalRent short_lease = 0"
    using findOptimalRent_two_values [OF valid_short_lease] npv_short_25 by simp
  have cost: "totalDevelopmentCost short_lease = 93480000"
    by (simp add: short_lease_def default_inputs_def)
  have "npv (calculateNPV 0 short_lease) = - totalDevelopmentCost short_lease"
    unfolding calculateNPV_def by (rule npv_zero_rent)
  then have neg: "npv (calculateNPV (real_of_int (findOptimalRent short_lease)) short_lease) < 0"
    by (simp add: short cost)
  have dflt: "findOptimalRent default_inputs = 49999237"
    using findOptimalRent_two_values [OF valid_default_inputs] npv_default_25 by simp
  have "npv (calculateNPV 25000000 default_inputs)
      \<le> npv (calculateNPV (49999237 + 1000) default_inputs)"
    using valid_default_inputs by (rule npv_mono) simp
  with npv_default_25
  have pos: "0 \<le> npv (calculateNPV (real_of_int (findOptimalRent default_inputs) + 1000)
      default_inputs)"
    by (simp add: dflt)
  from valid_short_lease npv_short_45 short neg valid_default_inputs pos
  show ?thesis by blast
qed

text \<open>
  C3. The claim: for the default lease the search returns a rent between
  100,000 and 9,999,999 whose net present value lies within 1000 of zero, with
  a payback period between 1 and 20. The search returns 49,999,237, the net
  present value at that rent exceeds 1000, and the payback period does lie
  between 1 and 20.
\<close>

theorem default_lease_result:
  "findOptimalRent default_inputs = 49999237
   \<and> 9999999 < findOptimalRent default_inputs
   \<and> 1000 < npv (calculateNPV (real_of_int (findOptimalRent default_inputs)) default_inputs)
   \<and> 1 \<le> calculatePaybackPeriod (cashFlowData
         (calculateNPV (real_of_int (findOptimalRent default_inputs)) default_inputs))
   \<and> calculatePaybackPeriod (cashFlowData
         (calculateNPV (real_of_int (findOptimalRent default_inputs)) default_inputs)) \<le> 20"
proof -
  have dflt: "findOptimalRent default_inputs = 49999237"
    using findOptimalRent_two_values [OF valid_default_inputs] npv_default_25 by simp
  have "npv (calculateNPV 25000000 default_inputs) \<le> npv (calculateNPV 49999237 default_inputs)"
    using valid_default_inputs by (rule npv_mono) simp
  with npv_default_25 have big: "1000 < npv (calculateNPV 49999237 default_inputs)"
    by simp
  have len: "length (cashFlowData (calculateNPV 49999237 default_inputs)) = 20"
    by (simp add: calculateNPV_def rows_length default_inputs_def)
  then have "cashFlowData (calculateNPV 49999237 default_inputs) \<noteq> []"
    by auto
  from payback_bounds [OF this] len
  have pb: "1 \<le> calculatePaybackPeriod (cashFlowData (calculateNPV 49999237 default_inputs))
      \<and> calculatePaybackPeriod (cashFlowData (calculateNPV 49999237 default_inputs)) \<le> 20"
    by simp
  from dflt big pb show ?thesis by simp
qed

text \<open>
  C9. The claim: when the supplied development cost is at most 0 or the
  supplied contract duration is at most 0, \<open>calculateOptimalRent\<close> signals
  invalid input and returns without running the search or the projection. A
  negative value is rejected so, but a supplied 0 is not: \<open>getInputValues\<close>
  replaces it by the default before the checks of lines 188 and 193 read it, and
  the form with a cost of 0 (or a duration of 0) runs exactly the nine calls of
  the default form, starting with the search and displaying 49,999,237.
\<close>

theorem zero_field_bypasses_validation:
  "calculateOptimalRent (default_form\<lparr>totalDevelopmentCost_field := Some 0\<rparr>)
     = calculateOptimalRent default_form
   \<and> calculateOptimalRent (default_form\<lparr>contractDuration_field := Some 0\<rparr>)
     = calculateOptimalRent default_form
   \<and> length (calculateOptimalRent default_form) = 9
   \<and> hd (calculateOptimalRent default_form) = Call_findOptimalRent default_inputs
   \<and> calculateOptimalRent default_form ! 6 = Call_updateSlider 49999237
   \<and> calculateOptimalRent (default_form\<lparr>totalDevelopmentCost_field := Some (- 5)\<rparr>)
     = [Alert DevelopmentCostAlert]
   \<and> calculateOptimalRent (default_form\<lparr>contractDuration_field := Some (- 1)\<rparr>)
     = [Alert ContractDurationAlert]"
proof -
  have zero_cost: "calculateOptimalRent (default_form\<lparr>totalDevelopmentCost_field := Some 0\<rparr>)
      = calculateOptimalRent default_form"
    by (rule calculateOptimalRent_reads_record)
       (simp only: zero_cost_field_defaulted getInputValues_default_form)
  have zero_duration: "calculateOptimalRent (default_form\<lparr>contractDuration_field := Some 0\<rparr>)
      = calculateOptimalRent default_form"
    by (rule calculateOptimalRent_reads_record)
       (simp only: zero_duration_field_defaulted getInputValues_default_form)
  have pos: "0 < totalDevelopmentCost default_inputs \<and> 0 < contractDuration default_inputs"
    by (simp add: default_inputs_def)
  have dflt: "findOptimalRent default_inputs = 49999237"
    using findOptimalRent_two_values [OF valid_default_inputs] npv_default_25 by simp
  note run = calculateOptimalRent_on_record [of default_form,
      unfolded getInputValues_default_form]
  from run pos have len: "length (calculateOptimalRent default_form) = 9"
    by simp
  from run pos have first: "hd (calculateOptimalRent default_form)
      = Call_findOptimalRent default_inputs"
    by simp
  from run pos have slider: "calculateOptimalRent default_form ! 6 = Call_updateSlider 49999237"
    by (simp add: dflt)
  have neg_cost: "calculateOptimalRent (default_form\<lparr>totalDevelopmentCost_field := Some (- 5)\<rparr>)
      = [Alert DevelopmentCostAlert]"
    by (simp add: calculateOptimalRent_def getInputValues_def default_form_def or_default_def)
  have neg_duration: "calculateOptimalRent (default_form\<lparr>contractDuration_field := Some (- 1)\<rparr>)
      = [Alert ContractDurationAlert]"
    by (simp add: calculateOptimalRent_def getInputValues_def default_form_def or_default_def)
  from zero_cost zero_duration len first slider neg_cost neg_duration
  show ?thesis by blast
qed

end
